theory Spec2Isabelle
  imports Complex_Main
begin

section \<open>Geodesy and condition polling of the GIS test framework\<close>

text \<open>
  A JavaScript \<^verbatim>\<open>number\<close> is an IEEE 754 double. Comparisons of doubles are exact, so the
  functions that only compare (\<^verbatim>\<open>validateCoordinates\<close>, \<^verbatim>\<open>validateBounds\<close>,
  \<^verbatim>\<open>normalizeLatitude\<close>) are written on the reals. In \<^verbatim>\<open>normalizeLongitude\<close> every sum is
  rounded to the nearest double, and the rounding \<open>fl\<close> is part of the model.
  \<^verbatim>\<open>calculateDistance\<close>, \<^verbatim>\<open>calculateBearing\<close> and \<^verbatim>\<open>calculatePolygonArea\<close> are written with
  the real functions \<open>sin\<close>, \<open>cos\<close>, \<open>arctan\<close> and \<open>sqrt\<close>: they give the value of the formula
  in exact arithmetic, which the source approximates in doubles, and they are used only
  for statements that do not depend on that approximation. \<^verbatim>\<open>NaN\<close> and the infinities are
  not values of the model. Millisecond clock readings (\<^verbatim>\<open>Date.now()\<close>) and the timeout and
  interval of a wait are integers.
\<close>

subsection \<open>Configuration constants (config/constants.ts)\<close>

definition MIN_LATITUDE :: real where "MIN_LATITUDE = -90"
definition MAX_LATITUDE :: real where "MAX_LATITUDE = 90"
definition MIN_LONGITUDE :: real where "MIN_LONGITUDE = -180"
definition MAX_LONGITUDE :: real where "MAX_LONGITUDE = 180"
definition EARTH_RADIUS_KM :: real where "EARTH_RADIUS_KM = 6371"

subsection \<open>Validation (GISValidations)\<close>

text \<open>
  Calls of \<^verbatim>\<open>logger.warn\<close>, \<^verbatim>\<open>logger.debug\<close>, \<^verbatim>\<open>console.warn\<close> and \<^verbatim>\<open>console.log\<close> are
  kept as the list of entries a call emits, in order; an entry about a number carries the
  number instead of its rendered text, and the pictograms that start the legacy messages
  are left out.
\<close>

datatype log_entry =
    InvalidLatitude real
  | InvalidLongitude real
  | DistanceCalculated real
  | Debug string
  | Console string

record MapBounds =
  north :: real
  south :: real
  east :: real
  west :: real

definition validateCoordinates :: "real \<Rightarrow> real \<Rightarrow> bool \<times> log_entry list" where
  "validateCoordinates lat lng =
     (let isValidLat = (lat \<ge> MIN_LATITUDE \<and> lat \<le> MAX_LATITUDE);
          isValidLng = (lng \<ge> MIN_LONGITUDE \<and> lng \<le> MAX_LONGITUDE)
      in (isValidLat \<and> isValidLng,
          (if \<not> isValidLat then [InvalidLatitude lat] else []) @
          (if \<not> isValidLng then [InvalidLongitude lng] else [])))"

text \<open>
  \<^verbatim>\<open>a && b\<close> does not evaluate \<^verbatim>\<open>b\<close> when \<^verbatim>\<open>a\<close> is false, so the second corner is
  validated (and may warn) only when the first one passed.
\<close>

definition validateBounds :: "MapBounds \<Rightarrow> bool \<times> log_entry list" where
  "validateBounds bounds =
     (let isValidStructure = (north bounds > south bounds \<and> east bounds > west bounds);
          (ok1, warns1) = validateCoordinates (north bounds) (east bounds);
          (isValidCoordinates, warns) =
             (if ok1
              then (let (ok2, warns2) = validateCoordinates (south bounds) (west bounds)
                    in (ok2, warns1 @ warns2))
              else (False, warns1))
      in (isValidStructure \<and> isValidCoordinates, warns))"

subsection \<open>The JavaScript primitives the calculations use\<close>

text \<open>
  \<^verbatim>\<open>Math.atan2(y, x)\<close>: the angle of the point \<open>(x, y)\<close> in \<open>(-\<pi>, \<pi>]\<close>, and 0 at the
  origin. \<^verbatim>\<open>Math.sin\<close>, \<^verbatim>\<open>Math.cos\<close>, \<^verbatim>\<open>Math.sqrt\<close>, \<^verbatim>\<open>Math.abs\<close>, \<^verbatim>\<open>Math.min\<close> and
  \<^verbatim>\<open>Math.max\<close> are the functions of the same name on the reals.
\<close>

definition Math_atan2 :: "real \<Rightarrow> real \<Rightarrow> real" where
  "Math_atan2 y x =
     (if x > 0 then arctan (y / x)
      else if x < 0 then (if y \<ge> 0 then arctan (y / x) + pi else arctan (y / x) - pi)
      else if y > 0 then pi / 2
      else if y < 0 then - (pi / 2)
      else 0)"

text \<open>
  The remainder operator \<^verbatim>\<open>n % d\<close>: \<open>n - d * q\<close> where \<open>q\<close> is \<open>n / d\<close> truncated
  towards zero, so the result has the sign of the dividend.
\<close>

definition js_rem :: "real \<Rightarrow> real \<Rightarrow> real" where
  "js_rem n d = n - d * of_int (if n / d \<ge> 0 then \<lfloor>n / d\<rfloor> else \<lceil>n / d\<rceil>)"

text \<open>
  Rounding to the nearest double, ties to the even mantissa. A finite double is
  \<open>m * 2\<^sup>e\<close> with an integer \<open>\<bar>m\<bar> < 2\<^sup>5\<^sup>3\<close> and \<open>-1074 \<le> e \<le> 971\<close>. The doubles around \<open>x\<close> are
  the multiples of \<open>2\<close> to the power \<open>ulp_exponent x\<close>: 52 below the exponent of \<open>x\<close>, and
  never below -1074. The sum or difference of two doubles \<open>a\<close> and \<open>b\<close> that JavaScript
  computes is \<open>fl (a + b)\<close> or \<open>fl (a - b)\<close>. Overflow beyond the largest double is not
  modelled; it does not arise where \<open>fl\<close> is used.
\<close>

definition round_half_even :: "real \<Rightarrow> int" where
  "round_half_even r =
     (let f = \<lfloor>r\<rfloor>
      in if r - of_int f < 1 / 2 then f
         else if 1 / 2 < r - of_int f then f + 1
         else if even f then f else f + 1)"

definition ulp_exponent :: "real \<Rightarrow> int" where
  "ulp_exponent x = max (\<lfloor>log 2 \<bar>x\<bar>\<rfloor> - 52) (- 1074)"

definition fl :: "real \<Rightarrow> real" where
  "fl x = (if x = 0 then 0
           else of_int (round_half_even (x / 2 powr of_int (ulp_exponent x)))
                * 2 powr of_int (ulp_exponent x))"

definition is_double :: "real \<Rightarrow> bool" where
  "is_double x \<longleftrightarrow>
     (\<exists>m e :: int. \<bar>m\<bar> < 2 ^ 53 \<and> - 1074 \<le> e \<and> e \<le> 971 \<and> x = of_int m * 2 powr of_int e)"

text \<open>The doubles that are multiples of \<open>2\<^sup>e\<close> with a mantissa of at most 53 bits.\<close>

definition grid :: "int \<Rightarrow> real \<Rightarrow> bool" where
  "grid e x \<longleftrightarrow> (\<exists>m :: int. \<bar>m\<bar> < 2 ^ 53 \<and> x = of_int m * 2 powr of_int e)"

subsection \<open>Calculations (GISCalculations)\<close>

record Coordinates =
  coord_lat :: real
  coord_lng :: real

definition degreesToRadians :: "real \<Rightarrow> real" where
  "degreesToRadians degrees = degrees * (pi / 180)"

text \<open>
  The Haversine formula in exact arithmetic. There the term \<open>a\<close> is always in \<open>[0, 1]\<close>; the
  source computes \<open>a\<close> in doubles and does not clamp it, so that for some nearly antipodal
  points \<open>a\<close> comes out just above 1 and \<^verbatim>\<open>Math.sqrt(1 - a)\<close> is \<^verbatim>\<open>NaN\<close>. That case is outside
  this definition.
\<close>

definition calculateDistance :: "real \<Rightarrow> real \<Rightarrow> real \<Rightarrow> real \<Rightarrow> real" where
  "calculateDistance lat1 lng1 lat2 lng2 =
     (let R = EARTH_RADIUS_KM;
          dLat = degreesToRadians (lat2 - lat1);
          dLng = degreesToRadians (lng2 - lng1);
          a = sin (dLat / 2) * sin (dLat / 2) +
              cos (degreesToRadians lat1) * cos (degreesToRadians lat2) *
              sin (dLng / 2) * sin (dLng / 2);
          c = 2 * Math_atan2 (sqrt a) (sqrt (1 - a));
          distance = R * c
      in distance)"

definition calculateBearing :: "real \<Rightarrow> real \<Rightarrow> real \<Rightarrow> real \<Rightarrow> real" where
  "calculateBearing lat1 lng1 lat2 lng2 =
     (let dLng = degreesToRadians (lng2 - lng1);
          lat1Rad = degreesToRadians lat1;
          lat2Rad = degreesToRadians lat2;
          y = sin dLng * cos lat2Rad;
          x = cos lat1Rad * sin lat2Rad - sin lat1Rad * cos lat2Rad * cos dLng;
          bearing = Math_atan2 y x
      in js_rem ((bearing * 180) / pi + 360) 360)"

text \<open>
  The \<^verbatim>\<open>for\<close> loop of \<^verbatim>\<open>calculatePolygonArea\<close>, with its index \<open>i\<close> and its accumulator
  \<open>area\<close>. Both \<open>i\<close> and \<open>j\<close> are below the length whenever the body runs.
\<close>

function calculatePolygonArea_loop :: "Coordinates list \<Rightarrow> nat \<Rightarrow> real \<Rightarrow> real" where
  "calculatePolygonArea_loop coordinates i area =
     (if i < length coordinates then
        (let j = (i + 1) mod length coordinates;
             lat1 = degreesToRadians (coord_lat (coordinates ! i));
             lat2 = degreesToRadians (coord_lat (coordinates ! j));
             lng1 = degreesToRadians (coord_lng (coordinates ! i));
             lng2 = degreesToRadians (coord_lng (coordinates ! j))
         in calculatePolygonArea_loop coordinates (i + 1)
              (area + (lng2 - lng1) * (2 + sin lat1 + sin lat2)))
      else area)"
  by pat_completeness auto
termination
  by (relation "measure (\<lambda>(coordinates, i, area). length coordinates - i)") auto

declare calculatePolygonArea_loop.simps [simp del]

definition calculatePolygonArea :: "Coordinates list \<Rightarrow> real" where
  "calculatePolygonArea coordinates =
     (if length coordinates < 3 then 0
      else (let R = EARTH_RADIUS_KM;
                area = calculatePolygonArea_loop coordinates 0 0
            in (\<bar>area\<bar> * R * R) / 2))"

text \<open>
  The two \<^verbatim>\<open>while\<close> loops of \<^verbatim>\<open>normalizeLongitude\<close>, one after the other, on doubles:
  \<^verbatim>\<open>lng -= 360\<close> stores the rounded difference. A loop that never ends has the value
  \<open>None\<close>.
\<close>

partial_function (option) normalizeLongitude_down :: "real \<Rightarrow> real option" where
  "normalizeLongitude_down lng =
     (if lng > 180 then normalizeLongitude_down (fl (lng - 360)) else Some lng)"

partial_function (option) normalizeLongitude_up :: "real \<Rightarrow> real option" where
  "normalizeLongitude_up lng =
     (if lng < - 180 then normalizeLongitude_up (fl (lng + 360)) else Some lng)"

definition normalizeLongitude :: "real \<Rightarrow> real option" where
  "normalizeLongitude lng =
     (case normalizeLongitude_down lng of
        None \<Rightarrow> None
      | Some lng' \<Rightarrow> normalizeLongitude_up lng')"

definition normalizeLatitude :: "real \<Rightarrow> real" where
  "normalizeLatitude lat = max (-90) (min 90 lat)"

subsection \<open>Legacy helpers (GISHelpers, utils/gis-helpers.ts)\<close>

definition GISHelpers_validateCoordinates :: "real \<Rightarrow> real \<Rightarrow> bool \<times> log_entry list" where
  "GISHelpers_validateCoordinates lat lng =
     (let isValidLat = (lat \<ge> -90 \<and> lat \<le> 90);
          isValidLng = (lng \<ge> -180 \<and> lng \<le> 180)
      in (isValidLat \<and> isValidLng,
          (if \<not> isValidLat then [InvalidLatitude lat] else []) @
          (if \<not> isValidLng then [InvalidLongitude lng] else [])))"

definition GISHelpers_degreesToRadians :: "real \<Rightarrow> real" where
  "GISHelpers_degreesToRadians degrees = degrees * (pi / 180)"

definition GISHelpers_calculateDistance ::
  "real \<Rightarrow> real \<Rightarrow> real \<Rightarrow> real \<Rightarrow> real \<times> log_entry list" where
  "GISHelpers_calculateDistance lat1 lng1 lat2 lng2 =
     (let R = 6371;
          dLat = GISHelpers_degreesToRadians (lat2 - lat1);
          dLng = GISHelpers_degreesToRadians (lng2 - lng1);
          a = sin (dLat / 2) * sin (dLat / 2) +
              cos (GISHelpers_degreesToRadians lat1) * cos (GISHelpers_degreesToRadians lat2) *
              sin (dLng / 2) * sin (dLng / 2);
          c = 2 * Math_atan2 (sqrt a) (sqrt (1 - a));
          distance = R * c
      in (distance, [DistanceCalculated distance]))"


subsection \<open>Condition polling (GISWaitStrategies.waitForCondition)\<close>

text \<open>
  The world a wait runs in: the millisecond clock that \<^verbatim>\<open>Date.now()\<close> reads, the state
  the predicate inspects, the time at which the page is closed (if it ever is), the
  entries logged so far, and a count of the predicate evaluations made so far (kept by
  the model, to state how often the predicate ran).

  A predicate (\<^verbatim>\<open>condition: () => Promise<boolean>\<close>) reads the clock and the inspected
  state; awaiting it yields a boolean or a rejection with the thrown value, a new
  inspected state, and takes some milliseconds. Time passes only while the predicate is
  awaited and while \<^verbatim>\<open>page.waitForTimeout\<close> sleeps.

  A thrown value is any JavaScript value. The template literal \<^verbatim>\<open>${error}\<close> converts it
  to a string, and that conversion itself throws a \<^verbatim>\<open>TypeError\<close> for a symbol and for
  an object without a usable \<^verbatim>\<open>toString\<close>: such a value is \<open>Unprintable\<close>.
\<close>

datatype thrown = Printable string | Unprintable

datatype outcome = Resolves bool | Rejects thrown

type_synonym 'p condition = "int \<Rightarrow> 'p \<Rightarrow> outcome \<times> 'p \<times> nat"

record 'p world =
  clock :: int
  page_state :: 'p
  closes_at :: "int option"
  evaluations :: nat
  logged :: "log_entry list"

record WaitOptions =
  opt_timeout :: "int option"
  opt_interval :: "int option"
  opt_description :: "string option"

text \<open>
  What a wait can throw: \<^verbatim>\<open>TimeoutError(operation, timeout)\<close> of utils/errors.ts; the plain
  \<^verbatim>\<open>Error\<close> of the legacy helper, with the description and the timeout its message is built
  from; the value a predicate threw, when nothing catches it; the \<^verbatim>\<open>TypeError\<close> of a
  failed string conversion; and the error with which \<^verbatim>\<open>page.waitForTimeout\<close> rejects when
  the page has been closed.
\<close>

datatype error =
    TimeoutError string int
  | PlainError string int
  | Thrown thrown
  | TypeError
  | TargetClosedError

definition logger_debug :: "string \<Rightarrow> 'p world \<Rightarrow> 'p world" where
  "logger_debug message w = w\<lparr>logged := logged w @ [Debug message]\<rparr>"

definition console_log :: "string \<Rightarrow> 'p world \<Rightarrow> 'p world" where
  "console_log message w = w\<lparr>logged := logged w @ [Console message]\<rparr>"

text \<open>The conversion \<^verbatim>\<open>${error}\<close>: the text, or nothing when the conversion throws.\<close>

definition template_string :: "thrown \<Rightarrow> string option" where
  "template_string v = (case v of Printable s \<Rightarrow> Some s | Unprintable \<Rightarrow> None)"

text \<open>
  \<^verbatim>\<open>await page.waitForTimeout(ms)\<close>: the sleep lasts the given milliseconds (not at all for
  a non-positive number). If the page is closed before the sleep is over, the call rejects
  at the moment of closing (at once, if the page is closed already).
\<close>

definition page_waitForTimeout :: "int \<Rightarrow> 'p world \<Rightarrow> (error + unit) \<times> 'p world" where
  "page_waitForTimeout ms w =
     (let wake = clock w + max 0 ms
      in case closes_at w of
           None \<Rightarrow> (Inr (), w\<lparr>clock := wake\<rparr>)
         | Some c \<Rightarrow>
             if c \<le> wake then (Inl TargetClosedError, w\<lparr>clock := max (clock w) c\<rparr>)
             else (Inr (), w\<lparr>clock := wake\<rparr>))"

definition await_condition :: "'p condition \<Rightarrow> 'p world \<Rightarrow> outcome \<times> 'p world" where
  "await_condition condition w =
     (case condition (clock w) (page_state w) of
        (r, p, d) \<Rightarrow>
          (r, w\<lparr>clock := clock w + int d, page_state := p,
                 evaluations := evaluations w + 1\<rparr>))"

text \<open>A destructuring default \<^verbatim>\<open>{ x = d } = options\<close>: \<open>d\<close> when the field is absent.\<close>

definition default_to :: "'a \<Rightarrow> 'a option \<Rightarrow> 'a" where
  "default_to d v = (case v of None \<Rightarrow> d | Some x \<Rightarrow> x)"

text \<open>
  The \<^verbatim>\<open>try { if (await condition()) { ...; return; } } catch (error) { ... }\<close> statement of
  the loop body. Its result is \<open>Inr True\<close> when the function returns from inside the
  \<^verbatim>\<open>try\<close>, \<open>Inr False\<close> when control goes on to the sleep, and \<open>Inl e\<close> when an exception
  leaves the \<^verbatim>\<open>catch\<close> block, which happens when the thrown value cannot be converted for
  the debug message.
\<close>

definition try_condition ::
  "'p condition \<Rightarrow> string \<Rightarrow> 'p world \<Rightarrow> (error + bool) \<times> 'p world" where
  "try_condition condition description w =
     (case await_condition condition w of
        (Resolves met, w1) \<Rightarrow>
          if met then (Inr True, logger_debug (description @ '' met'') w1)
          else (Inr False, w1)
      | (Rejects v, w1) \<Rightarrow>
          (case template_string v of
             None \<Rightarrow> (Inl TypeError, w1)
           | Some e \<Rightarrow>
               (Inr False,
                logger_debug (''Error checking '' @ description @ '': '' @ e) w1)))"

text \<open>
  The body of the \<^verbatim>\<open>while\<close> loop: the \<^verbatim>\<open>try\<close> statement, then the sleep, which stands
  outside the \<^verbatim>\<open>try\<close>. The body either ends the call (\<open>Inl\<close>: a return or an exception,
  with the world at that moment) or hands the world to the next test of the guard
  (\<open>Inr\<close>).
\<close>

definition loop_body ::
  "'p condition \<Rightarrow> int \<Rightarrow> string \<Rightarrow> 'p world \<Rightarrow> ((error + unit) \<times> 'p world) + 'p world" where
  "loop_body condition interval description w =
     (case try_condition condition description w of
        (Inl e, w1) \<Rightarrow> Inl (Inl e, w1)
      | (Inr returned, w1) \<Rightarrow>
          if returned then Inl (Inr (), w1)
          else (case page_waitForTimeout interval w1 of
                  (Inl e, w2) \<Rightarrow> Inl (Inl e, w2)
                | (Inr u, w2) \<Rightarrow> Inr w2))"

text \<open>
  The \<^verbatim>\<open>while\<close> loop. It need not end (an interval of 0 and a predicate that takes no time
  never move the clock), so not returning is the value \<open>None\<close>.
\<close>

partial_function (option) waitForCondition_loop ::
  "'p condition \<Rightarrow> int \<Rightarrow> int \<Rightarrow> string \<Rightarrow> int \<Rightarrow> 'p world \<Rightarrow> ((error + unit) \<times> 'p world) option"
where
  "waitForCondition_loop condition timeout interval description startTime w =
     (if clock w - startTime < timeout then
        (case loop_body condition interval description w of
           Inl result \<Rightarrow> Some result
         | Inr w' \<Rightarrow>
             waitForCondition_loop condition timeout interval description startTime w')
      else Some (Inl (TimeoutError (''Waiting for '' @ description) timeout), w))"

definition waitForCondition ::
  "'p condition \<Rightarrow> WaitOptions \<Rightarrow> 'p world \<Rightarrow> ((error + unit) \<times> 'p world) option" where
  "waitForCondition condition options w =
     (let timeout = default_to 5000 (opt_timeout options);
          interval = default_to 100 (opt_interval options);
          description = default_to ''condition'' (opt_description options);
          startTime = clock w;
          w0 = logger_debug (''Waiting for '' @ description @ ''...'') w
      in waitForCondition_loop condition timeout interval description startTime w0)"

text \<open>
  The legacy \<^verbatim>\<open>GISHelpers.waitForCondition\<close>: the same loop without the \<^verbatim>\<open>try\<close>, so a
  rejection of the predicate leaves the wait, and the timeout is a plain \<^verbatim>\<open>Error\<close>.
\<close>

partial_function (option) GISHelpers_waitForCondition_loop ::
  "'p condition \<Rightarrow> int \<Rightarrow> int \<Rightarrow> string \<Rightarrow> int \<Rightarrow> 'p world \<Rightarrow>
   ((error + unit) \<times> 'p world) option"
where
  "GISHelpers_waitForCondition_loop condition timeout interval description startTime w =
     (if clock w - startTime < timeout then
        (case await_condition condition w of
           (Resolves met, w1) \<Rightarrow>
             if met then Some (Inr (), console_log (description @ '' met'') w1)
             else (case page_waitForTimeout interval w1 of
                     (Inl e, w2) \<Rightarrow> Some (Inl e, w2)
                   | (Inr u, w2) \<Rightarrow>
                       GISHelpers_waitForCondition_loop condition timeout interval description
                         startTime w2)
         | (Rejects v, w1) \<Rightarrow> Some (Inl (Thrown v), w1))
      else Some (Inl (PlainError description timeout), w))"

definition GISHelpers_waitForCondition ::
  "'p condition \<Rightarrow> WaitOptions \<Rightarrow> 'p world \<Rightarrow> ((error + unit) \<times> 'p world) option" where
  "GISHelpers_waitForCondition condition options w =
     (let timeout = default_to 5000 (opt_timeout options);
          interval = default_to 100 (opt_interval options);
          description = default_to ''condition'' (opt_description options);
          startTime = clock w
      in GISHelpers_waitForCondition_loop condition timeout interval description startTime w)"

text \<open>
  What one unsuccessful polling cycle does to the world when nothing is thrown out of it:
  the evaluation, the debug entry if it rejected, and the sleep. \<open>in_budget\<close> is the loop
  guard, \<open>printable_only\<close> says that whatever the predicate throws can be converted to a
  string.
\<close>

definition failed_cycle :: "'p condition \<Rightarrow> int \<Rightarrow> string \<Rightarrow> 'p world \<Rightarrow> 'p world" where
  "failed_cycle condition interval description w =
     snd (page_waitForTimeout interval (snd (try_condition condition description w)))"

definition in_budget :: "int \<Rightarrow> int \<Rightarrow> 'p world \<Rightarrow> bool" where
  "in_budget startTime timeout w = (clock w - startTime < timeout)"

definition printable_only :: "'p condition \<Rightarrow> bool" where
  "printable_only condition = (\<forall>now p. fst (condition now p) \<noteq> Rejects Unprintable)"

text \<open>Three predicates to run the wait on, and the world they start in.\<close>

definition always_true :: "unit condition" where
  "always_true now p = (Resolves True, p, 0)"

definition flaky :: "nat condition" where
  "flaky now calls =
     (if calls < 2 then (Rejects (Printable ''page not ready''), calls + 1, 10)
      else (Resolves True, calls + 1, 10))"

definition throws_symbol :: "unit condition" where
  "throws_symbol now p = (Rejects Unprintable, p, 0)"

definition world0 :: "'p \<Rightarrow> 'p world" where
  "world0 p = \<lparr>clock = 0, page_state = p, closes_at = None, evaluations = 0, logged = []\<rparr>"

subsection \<open>The closed-wrap summation of the area, as the specification words it\<close>

text \<open>
  The summand \<open>(lng[j] - lng[i]) * (2 + sin lat[i] + sin lat[j])\<close> in radians, and the
  consecutive vertex pairs of a polygon that is implicitly closed: every vertex with its
  successor, the last one with the first.
\<close>

definition pair_term :: "Coordinates \<Rightarrow> Coordinates \<Rightarrow> real" where
  "pair_term p q =
     (degreesToRadians (coord_lng q) - degreesToRadians (coord_lng p)) *
     (2 + sin (degreesToRadians (coord_lat p)) + sin (degreesToRadians (coord_lat q)))"

definition consecutive_pairs :: "'a list \<Rightarrow> ('a \<times> 'a) list" where
  "consecutive_pairs xs = zip xs (rotate1 xs)"

definition closed_wrap_sum :: "Coordinates list \<Rightarrow> real" where
  "closed_wrap_sum cs = (\<Sum>(p, q)\<leftarrow>consecutive_pairs cs. pair_term p q)"

section \<open>Properties\<close>

subsection \<open>Validation\<close>

text \<open>
  C3. \<^verbatim>\<open>validateCoordinates(lat, lng)\<close> returns true exactly when
  \<open>-90 \<le> lat \<le> 90\<close> and \<open>-180 \<le> lng \<le> 180\<close>, the boundary values included; it always
  returns a boolean (the function has no error branch, it only logs warnings).
  In particular (90, 180) is valid and (90.0001, 0) is not.
\<close>

theorem validateCoordinates_iff:
  "fst (validateCoordinates lat lng) = (-90 \<le> lat \<and> lat \<le> 90 \<and> -180 \<le> lng \<and> lng \<le> 180)
   \<and> fst (validateCoordinates 90 180) = True
   \<and> fst (validateCoordinates (-90) (-180)) = True
   \<and> fst (validateCoordinates 90.0001 0) = False"
  by (simp add: validateCoordinates_def Let_def MIN_LATITUDE_def MAX_LATITUDE_def
        MIN_LONGITUDE_def MAX_LONGITUDE_def)

text \<open>
  C9. \<^verbatim>\<open>validateBounds(bounds)\<close> returns true exactly when \<open>north > south\<close> and
  \<open>east > west\<close>, both strictly, and the corners (north, east) and (south, west) both pass
  \<^verbatim>\<open>validateCoordinates\<close>. The inverted box \<open>{north:10, south:20, east:10, west:20}\<close> is
  rejected.
\<close>

theorem validateBounds_iff:
  "fst (validateBounds b) =
     (north b > south b \<and> east b > west b
      \<and> fst (validateCoordinates (north b) (east b))
      \<and> fst (validateCoordinates (south b) (west b)))
   \<and> fst (validateBounds \<lparr>north = 10, south = 20, east = 10, west = 20\<rparr>) = False"
  by (auto simp: validateBounds_def Let_def split: prod.splits)

subsection \<open>Distance\<close>

text \<open>
  C10. The legacy helpers return what the current implementations return: the same
  boolean from \<^verbatim>\<open>validateCoordinates\<close> and the same number from \<^verbatim>\<open>calculateDistance\<close>
  (the legacy one also prints it).
\<close>

theorem GISHelpers_agree:
  "fst (GISHelpers_validateCoordinates lat lng) = fst (validateCoordinates lat lng)
   \<and> fst (GISHelpers_calculateDistance lat1 lng1 lat2 lng2) = calculateDistance lat1 lng1 lat2 lng2"
  by (simp add: GISHelpers_validateCoordinates_def validateCoordinates_def
        GISHelpers_calculateDistance_def calculateDistance_def Let_def
        GISHelpers_degreesToRadians_def degreesToRadians_def EARTH_RADIUS_KM_def
        MIN_LATITUDE_def MAX_LATITUDE_def MIN_LONGITUDE_def MAX_LONGITUDE_def)

text \<open>
  In exact arithmetic the haversine term \<open>a\<close> of \<^verbatim>\<open>calculateDistance\<close> is one half of
  \<open>1 - cos \<sigma>\<close>, where \<open>\<sigma>\<close> is the angle between the two points, so it lies in \<open>[0, 1]\<close> and
  both square roots are defined. A value of \<open>a\<close> above 1 in the source is a rounding
  error of the double computation.
\<close>

lemma haversine_cos:
  fixes p1 p2 dl :: real
  defines "a \<equiv> sin ((p2 - p1) / 2) * sin ((p2 - p1) / 2)
                + cos p1 * cos p2 * sin (dl / 2) * sin (dl / 2)"
  shows "1 - 2 * a = sin p1 * sin p2 + cos p1 * cos p2 * cos dl"
proof -
  have h: "2 * (sin (v / 2) * sin (v / 2)) = 1 - cos v" for v :: real
    using cos_double_sin [of "v / 2"] by (simp add: power2_eq_square)
  define sA where "sA = sin ((p2 - p1) / 2)"
  define sB where "sB = sin (dl / 2)"
  define k where "k = cos p1 * cos p2"
  have "2 * a = 2 * (sA * sA) + k * (2 * (sB * sB))"
    unfolding a_def sA_def [symmetric] sB_def [symmetric] k_def [symmetric]
    by (simp add: algebra_simps)
  also have "\<dots> = (1 - cos (p2 - p1)) + k * (1 - cos dl)"
    unfolding sA_def sB_def by (simp only: h)
  also have "\<dots> = 1 - cos (p2 - p1) + k - k * cos dl"
    by (simp add: algebra_simps)
  finally have "1 - 2 * a = cos (p2 - p1) - k + k * cos dl" by linarith
  also have "cos (p2 - p1) = k + sin p1 * sin p2"
    by (simp add: cos_diff k_def mult.commute)
  finally show ?thesis unfolding k_def by linarith
qed

lemma central_angle_bounds:
  "- 1 \<le> sin p1 * sin p2 + cos p1 * cos p2 * cos dl
   \<and> sin p1 * sin p2 + cos p1 * cos p2 * cos (dl::real) \<le> 1"
proof -
  have lo: "- 1 \<le> cos dl" and hi: "cos dl \<le> 1" by simp_all
  have ub: "sin p1 * sin p2 + cos p1 * cos p2 * cos dl \<le> 1"
  proof (cases "0 \<le> cos p1 * cos p2")
    case True
    have "cos p1 * cos p2 * cos dl \<le> cos p1 * cos p2 * 1"
      using True hi by (intro mult_left_mono) simp_all
    then have "sin p1 * sin p2 + cos p1 * cos p2 * cos dl \<le> cos (p1 - p2)"
      by (simp add: cos_diff)
    also have "\<dots> \<le> 1" by simp
    finally show ?thesis .
  next
    case False
    then have "cos p1 * cos p2 \<le> 0" by simp
    then have "cos p1 * cos p2 * cos dl \<le> cos p1 * cos p2 * (- 1)"
      using lo by (intro mult_left_mono_neg) simp_all
    then have "sin p1 * sin p2 + cos p1 * cos p2 * cos dl \<le> - cos (p1 + p2)"
      by (simp add: cos_add)
    also have "\<dots> \<le> 1" using cos_ge_minus_one [of "p1 + p2"] by linarith
    finally show ?thesis .
  qed
  have lb: "- 1 \<le> sin p1 * sin p2 + cos p1 * cos p2 * cos dl"
  proof (cases "0 \<le> cos p1 * cos p2")
    case True
    have "cos p1 * cos p2 * (- 1) \<le> cos p1 * cos p2 * cos dl"
      using True lo by (intro mult_left_mono) simp_all
    then have "- cos (p1 + p2) \<le> sin p1 * sin p2 + cos p1 * cos p2 * cos dl"
      by (simp add: cos_add)
    moreover have "- 1 \<le> - cos (p1 + p2)" by simp
    ultimately show ?thesis by linarith
  next
    case False
    then have "cos p1 * cos p2 \<le> 0" by simp
    then have "cos p1 * cos p2 * 1 \<le> cos p1 * cos p2 * cos dl"
      using hi by (intro mult_left_mono_neg) simp_all
    then have "cos (p1 - p2) \<le> sin p1 * sin p2 + cos p1 * cos p2 * cos dl"
      by (simp add: cos_diff)
    moreover have "- 1 \<le> cos (p1 - p2)" by simp
    ultimately show ?thesis by linarith
  qed
  from lb ub show ?thesis by simp
qed

lemma haversine_range:
  fixes p1 p2 dl :: real
  defines "a \<equiv> sin ((p2 - p1) / 2) * sin ((p2 - p1) / 2)
                + cos p1 * cos p2 * sin (dl / 2) * sin (dl / 2)"
  shows "0 \<le> a \<and> a \<le> 1"
proof -
  have "1 - 2 * a = sin p1 * sin p2 + cos p1 * cos p2 * cos dl"
    unfolding a_def by (rule haversine_cos)
  with central_angle_bounds [of p1 p2 dl] show ?thesis by linarith
qed

subsection \<open>Bearing\<close>

lemma Math_atan2_bounds: "- pi < Math_atan2 y x \<and> Math_atan2 y x \<le> pi"
proof -
  have lb: "- (pi / 2) < arctan (y / x)" and ub: "arctan (y / x) < pi / 2"
    by (rule arctan_lbound, rule arctan_ubound)
  have pi_pos: "0 < pi" by simp
  consider (pos) "x > 0" | (negpos) "x < 0" "y \<ge> 0" | (negneg) "x < 0" "y < 0"
    | (zero) "x = 0" by linarith
  then show ?thesis
  proof cases
    case pos
    have "- pi < arctan (y / x) \<and> arctan (y / x) \<le> pi"
      using lb ub pi_pos by linarith
    with pos show ?thesis by (simp add: Math_atan2_def)
  next
    case negpos
    then have "y / x \<le> 0" by (simp add: divide_nonneg_neg)
    then have "arctan (y / x) \<le> 0" by (simp add: arctan_le_zero_iff)
    then have "- pi < arctan (y / x) + pi \<and> arctan (y / x) + pi \<le> pi"
      using lb pi_pos by linarith
    with negpos show ?thesis by (simp add: Math_atan2_def)
  next
    case negneg
    then have "0 < y / x" by (simp add: divide_neg_neg)
    then have "0 < arctan (y / x)" by (simp add: zero_less_arctan_iff)
    then have "- pi < arctan (y / x) - pi \<and> arctan (y / x) - pi \<le> pi"
      using ub pi_pos by linarith
    with negneg show ?thesis by (simp add: Math_atan2_def)
  next
    case zero
    have "- (pi / 2) \<le> pi" using pi_pos by linarith
    with zero pi_pos show ?thesis by (simp add: Math_atan2_def)
  qed
qed

lemma Math_atan2_pos:
  assumes "0 < y"
  shows "0 < Math_atan2 y x \<and> Math_atan2 y x < pi"
proof -
  have lb: "- (pi / 2) < arctan (y / x)" and ub: "arctan (y / x) < pi / 2"
    by (rule arctan_lbound, rule arctan_ubound)
  have pi_pos: "0 < pi" by simp
  consider (pos) "x > 0" | (neg) "x < 0" | (zero) "x = 0" by linarith
  then show ?thesis
  proof cases
    case pos
    then have "0 < y / x" using assms by simp
    then have "0 < arctan (y / x)" by (simp add: zero_less_arctan_iff)
    then have "0 < arctan (y / x) \<and> arctan (y / x) < pi" using ub pi_pos by linarith
    with pos show ?thesis by (simp add: Math_atan2_def)
  next
    case neg
    then have "y / x < 0" using assms by (simp add: divide_pos_neg)
    then have "arctan (y / x) < 0" by (simp add: arctan_less_zero_iff)
    then have "0 < arctan (y / x) + pi \<and> arctan (y / x) + pi < pi" using lb pi_pos by linarith
    with neg assms show ?thesis by (simp add: Math_atan2_def)
  next
    case zero
    have "0 < pi / 2 \<and> pi / 2 < pi" using pi_pos by simp
    with zero assms show ?thesis by (simp add: Math_atan2_def)
  qed
qed

lemma js_rem_pos_range:
  assumes "0 \<le> n" "0 < d"
  shows "0 \<le> js_rem n d \<and> js_rem n d < d"
proof -
  have q: "0 \<le> n / d" using assms by simp
  have eq: "js_rem n d = n - d * of_int \<lfloor>n / d\<rfloor>" using q by (simp add: js_rem_def)
  have dn: "d * (n / d) = n" using assms(2) by simp
  have "d * of_int \<lfloor>n / d\<rfloor> \<le> d * (n / d)"
    using assms(2) by (intro mult_left_mono) simp_all
  then have a: "d * of_int \<lfloor>n / d\<rfloor> \<le> n" using dn by simp
  have "n / d < of_int \<lfloor>n / d\<rfloor> + 1" by linarith
  then have "d * (n / d) < d * (of_int \<lfloor>n / d\<rfloor> + 1)"
    using assms(2) by (intro mult_strict_left_mono) simp_all
  then have b: "n < d * (of_int \<lfloor>n / d\<rfloor> + 1)" using dn by simp
  from a b show ?thesis unfolding eq by (simp add: algebra_simps)
qed

lemma js_rem_once:
  assumes "d \<le> n" "n < 2 * d" "0 < d"
  shows "js_rem n d = n - d"
proof -
  have "1 \<le> n / d" using assms by (simp add: field_simps)
  moreover have "n / d < 2" using assms by (simp add: field_simps)
  ultimately have fl: "\<lfloor>n / d\<rfloor> = 1" by linarith
  have "0 \<le> n / d" using \<open>1 \<le> n / d\<close> by linarith
  then show ?thesis by (simp add: js_rem_def fl)
qed

lemma calculateBearing_range: "0 \<le> calculateBearing lat1 lng1 lat2 lng2 \<and> calculateBearing lat1 lng1 lat2 lng2 < 360"
proof -
  define b where "b = Math_atan2 (sin (degreesToRadians (lng2 - lng1)) * cos (degreesToRadians lat2))
     (cos (degreesToRadians lat1) * sin (degreesToRadians lat2) -
      sin (degreesToRadians lat1) * cos (degreesToRadians lat2) * cos (degreesToRadians (lng2 - lng1)))"
  have eq: "calculateBearing lat1 lng1 lat2 lng2 = js_rem ((b * 180) / pi + 360) 360"
    by (simp add: calculateBearing_def Let_def b_def)
  have "- pi < b" using Math_atan2_bounds b_def by blast
  then have "- 180 < (b * 180) / pi" by (simp add: field_simps)
  then have "0 \<le> (b * 180) / pi + 360" by linarith
  then show ?thesis unfolding eq by (intro js_rem_pos_range) simp_all
qed

lemma calculateBearing_east:
  assumes "0 < sin (degreesToRadians (lng2 - lng1)) * cos (degreesToRadians lat2)"
  shows "0 < calculateBearing lat1 lng1 lat2 lng2 \<and> calculateBearing lat1 lng1 lat2 lng2 < 180"
proof -
  define b where "b = Math_atan2 (sin (degreesToRadians (lng2 - lng1)) * cos (degreesToRadians lat2))
     (cos (degreesToRadians lat1) * sin (degreesToRadians lat2) -
      sin (degreesToRadians lat1) * cos (degreesToRadians lat2) * cos (degreesToRadians (lng2 - lng1)))"
  have eq: "calculateBearing lat1 lng1 lat2 lng2 = js_rem ((b * 180) / pi + 360) 360"
    by (simp add: calculateBearing_def Let_def b_def)
  have b: "0 < b \<and> b < pi" unfolding b_def using assms by (rule Math_atan2_pos)
  then have lo: "0 < (b * 180) / pi" by simp
  have hi: "(b * 180) / pi < 180" using b by (simp add: field_simps)
  have "js_rem ((b * 180) / pi + 360) 360 = (b * 180) / pi + 360 - 360"
    using lo hi by (intro js_rem_once) simp_all
  then show ?thesis unfolding eq using lo hi by simp
qed

lemma calculateBearing_SF_NY: "0 < calculateBearing 37.7749 (-122.4194) 40.7128 (-74.0060)
   \<and> calculateBearing 37.7749 (-122.4194) 40.7128 (-74.0060) < 360"
proof -
  have pi_pos: "0 < pi" by simp
  have d: "degreesToRadians (-74.0060 - (-122.4194)) = 48.4134 * (pi / 180)"
    by (simp add: degreesToRadians_def)
  have "0 < 48.4134 * (pi / 180)" using pi_pos by simp
  moreover have "48.4134 * (pi / 180) < pi" using pi_pos by simp
  ultimately have s: "0 < sin (degreesToRadians (-74.0060 - (-122.4194)))"
    unfolding d by (rule sin_gt_zero)
  have "- (pi / 2) < degreesToRadians 40.7128" using pi_pos by (simp add: degreesToRadians_def)
  moreover have "degreesToRadians 40.7128 < pi / 2" using pi_pos by (simp add: degreesToRadians_def)
  ultimately have c: "0 < cos (degreesToRadians 40.7128)" by (rule cos_gt_zero_pi)
  from s c have "0 < sin (degreesToRadians (-74.0060 - (-122.4194))) * cos (degreesToRadians 40.7128)"
    by simp
  from calculateBearing_east [OF this, where ?lat1.0 = "37.7749"] show ?thesis by linarith
qed

text \<open>
  C5. The bearing is always in \<open>[0, 360)\<close>; from San Francisco (37.7749, -122.4194) to
  New York (40.7128, -74.0060) it is strictly between 0 and 360.
\<close>

theorem calculateBearing_in_range:
  "0 \<le> calculateBearing lat1 lng1 lat2 lng2
   \<and> calculateBearing lat1 lng1 lat2 lng2 < 360
   \<and> 0 < calculateBearing 37.7749 (-122.4194) 40.7128 (-74.0060)
   \<and> calculateBearing 37.7749 (-122.4194) 40.7128 (-74.0060) < 360"
  using calculateBearing_range [of lat1 lng1 lat2 lng2] calculateBearing_SF_NY by simp

subsection \<open>Polygon area\<close>

lemma calculatePolygonArea_loop_sum:
  "i \<le> length cs \<Longrightarrow>
   calculatePolygonArea_loop cs i area =
     area + (\<Sum>k = i..<length cs. pair_term (cs ! k) (cs ! ((k + 1) mod length cs)))"
proof (induction cs i area rule: calculatePolygonArea_loop.induct)
  case (1 coordinates i area)
  show ?case
  proof (cases "i < length coordinates")
    case True
    then have le: "i + 1 \<le> length coordinates" by simp
    have split: "(\<Sum>k = i..<length coordinates. f k) = f i + (\<Sum>k = i + 1..<length coordinates. f k)"
      for f :: "nat \<Rightarrow> real"
      using True by (simp add: sum.atLeast_Suc_lessThan)
    show ?thesis
      apply (subst calculatePolygonArea_loop.simps)
      using True "1.IH" [OF True refl refl refl refl refl le]
      apply (simp add: Let_def split pair_term_def)
      done
  next
    case False
    with 1(2) have "i = length coordinates" by simp
    then show ?thesis by (subst calculatePolygonArea_loop.simps) simp
  qed
qed

lemma polygon_pairs_sum:
  "(\<Sum>k = 0..<length cs. pair_term (cs ! k) (cs ! ((k + 1) mod length cs)))
   = (\<Sum>(p, q)\<leftarrow>zip cs (rotate1 cs). pair_term p q)"
proof -
  have "(\<Sum>(p, q)\<leftarrow>zip cs (rotate1 cs). pair_term p q)
      = (\<Sum>k = 0..<length cs. (map (\<lambda>(p, q). pair_term p q) (zip cs (rotate1 cs))) ! k)"
    by (subst sum_list_sum_nth) simp
  also have "\<dots> = (\<Sum>k = 0..<length cs. pair_term (cs ! k) (cs ! ((k + 1) mod length cs)))"
    by (rule sum.cong) (simp_all add: nth_rotate1)
  finally show ?thesis by simp
qed

text \<open>
  C7. A list of fewer than three coordinates (the empty list and every two-element list
  among them) has area 0; for three or more points the area is the absolute value of the
  closed-wrap sum over the consecutive vertex pairs, the pair (last, first) included,
  scaled by \<open>R\<^sup>2 / 2\<close>.
\<close>

theorem calculatePolygonArea_closed_wrap:
  "(length cs < 3 \<longrightarrow> calculatePolygonArea cs = 0)
   \<and> calculatePolygonArea [] = 0
   \<and> calculatePolygonArea [p, q] = 0
   \<and> (3 \<le> length cs \<longrightarrow>
        calculatePolygonArea cs = (\<bar>closed_wrap_sum cs\<bar> * EARTH_RADIUS_KM * EARTH_RADIUS_KM) / 2
        \<and> last (consecutive_pairs cs) = (last cs, hd cs))"
proof -
  have wrap: "last (consecutive_pairs cs) = (last cs, hd cs)" if "3 \<le> length cs"
  proof -
    from that obtain x xs where cs: "cs = x # xs"
      by (cases cs) auto
    have "zip (x # xs) (xs @ [x]) = zip (butlast (x # xs) @ [last (x # xs)]) (xs @ [x])"
      by (simp only: append_butlast_last_id [OF list.distinct(2)])
    also have "\<dots> = zip (butlast (x # xs)) xs @ [(last (x # xs), x)]"
      by (subst zip_append) simp_all
    finally show ?thesis by (simp add: consecutive_pairs_def cs)
  qed
  have "calculatePolygonArea_loop cs 0 0 =
          0 + (\<Sum>k = 0..<length cs. pair_term (cs ! k) (cs ! ((k + 1) mod length cs)))"
    by (rule calculatePolygonArea_loop_sum) simp
  also have "\<dots> = closed_wrap_sum cs"
    unfolding polygon_pairs_sum closed_wrap_sum_def consecutive_pairs_def by simp
  finally have loop: "calculatePolygonArea_loop cs 0 0 = closed_wrap_sum cs" .
  have area: "calculatePolygonArea cs =
                (\<bar>closed_wrap_sum cs\<bar> * EARTH_RADIUS_KM * EARTH_RADIUS_KM) / 2"
    if "3 \<le> length cs"
    using that by (simp add: calculatePolygonArea_def Let_def loop)
  have small: "calculatePolygonArea cs = 0" if "length cs < 3"
    using that by (simp add: calculatePolygonArea_def)
  have fixtures: "calculatePolygonArea [] = 0" "calculatePolygonArea [p, q] = 0"
    by (simp_all add: calculatePolygonArea_def)
  show ?thesis
    using wrap area small fixtures by blast
qed

theorem calculatePolygonArea_closed_wrap_witness:
  "length ([] :: Coordinates list) < 3
   \<and> calculatePolygonArea [] = 0
   \<and> 3 \<le> length [\<lparr>coord_lat = 0, coord_lng = 0\<rparr>, \<lparr>coord_lat = 0, coord_lng = 90\<rparr>,
                   \<lparr>coord_lat = 90, coord_lng = 0\<rparr>]
   \<and> calculatePolygonArea [\<lparr>coord_lat = 0, coord_lng = 0\<rparr>, \<lparr>coord_lat = 0, coord_lng = 90\<rparr>,
                           \<lparr>coord_lat = 90, coord_lng = 0\<rparr>]
       = pi * 6371 * 6371 / 4"
  using calculatePolygonArea_closed_wrap [of "[]"]
        calculatePolygonArea_closed_wrap
          [of "[\<lparr>coord_lat = 0, coord_lng = 0\<rparr>, \<lparr>coord_lat = 0, coord_lng = 90\<rparr>,
                \<lparr>coord_lat = 90, coord_lng = 0\<rparr>]"]
  by (simp add: closed_wrap_sum_def consecutive_pairs_def pair_term_def degreesToRadians_def
        EARTH_RADIUS_KM_def)

subsection \<open>Normalisation\<close>

text \<open>
  Rounding leaves a double as it is, and on the doubles that are multiples of \<open>2\<^sup>e\<close> with
  \<open>e \<le> 3\<close> (all doubles of magnitude below \<open>2\<^sup>5\<^sup>6\<close>) adding or subtracting 360 towards zero
  is exact, because 360 is a multiple of 8.
\<close>

lemma round_half_even_of_int [simp]: "round_half_even (of_int n) = n"
  by (simp add: round_half_even_def)

lemma fl_exact:
  assumes "\<bar>m\<bar> < 2 ^ 53" "- 1074 \<le> e"
  shows "fl (of_int m * 2 powr of_int e) = of_int m * 2 powr of_int e"
proof (cases "m = 0")
  case True
  then show ?thesis by (simp add: fl_def)
next
  case False
  define x :: real where "x = of_int m * 2 powr of_int e"
  define E where "E = ulp_exponent x"
  have x0: "x \<noteq> 0" using False by (simp add: x_def)
  have absx: "\<bar>x\<bar> = of_int \<bar>m\<bar> * 2 powr of_int e" by (simp add: x_def abs_mult)
  have "of_int \<bar>m\<bar> < (2 ^ 53 :: real)"
    using assms(1) by (metis of_int_less_iff of_int_numeral of_int_power)
  then have "\<bar>x\<bar> < 2 ^ 53 * 2 powr of_int e"
    unfolding absx by (intro mult_strict_right_mono) simp_all
  also have "\<dots> = 2 powr of_int (53 + e)" by (simp add: powr_add)
  finally have "log 2 \<bar>x\<bar> < of_int (53 + e)"
    using x0 by (subst log_less_iff) simp_all
  then have "\<lfloor>log 2 \<bar>x\<bar>\<rfloor> < 53 + e" by (simp add: floor_less_iff)
  then have Ee: "E \<le> e" using assms(2) by (simp add: E_def ulp_exponent_def)
  define n where "n = nat (e - E)"
  have e: "e = E + int n" using Ee by (simp add: n_def)
  have split: "(2 :: real) powr of_int e = 2 ^ n * 2 powr of_int E"
    unfolding e by (simp add: powr_add powr_realpow mult.commute)
  have "x / 2 powr of_int E = of_int (m * 2 ^ n)"
    unfolding x_def split by simp
  then have "round_half_even (x / 2 powr of_int E) = m * 2 ^ n"
    by (simp only: round_half_even_of_int)
  then have "fl x = of_int (m * 2 ^ n) * 2 powr of_int E"
    using x0 by (simp add: fl_def E_def)
  also have "\<dots> = x" unfolding x_def split by simp
  finally show ?thesis unfolding x_def .
qed

lemma fl_grid: "grid e x \<Longrightarrow> - 1074 \<le> e \<Longrightarrow> fl x = x"
  unfolding grid_def using fl_exact by blast

lemma grid_shift:
  assumes g: "grid e x" and e: "e \<le> 3" and small: "\<bar>x + of_int k * 360\<bar> \<le> \<bar>x\<bar>"
  shows "grid e (x + of_int k * 360)"
proof -
  from g obtain m :: int where m: "\<bar>m\<bar> < 2 ^ 53" "x = of_int m * 2 powr of_int e"
    unfolding grid_def by blast
  define n where "n = nat (3 - e)"
  have three: "(3 :: int) = e + int n" using e by (simp add: n_def)
  have "(8 :: real) = 2 powr of_int 3" by simp
  also have "\<dots> = 2 ^ n * (2 :: real) powr of_int e"
    unfolding three by (simp add: powr_add powr_realpow mult.commute)
  finally have eight: "(8 :: real) = 2 ^ n * 2 powr of_int e" .
  have "of_int k * (360 :: real) = of_int (k * 45) * 8" by simp
  also have "\<dots> = of_int (k * 45 * 2 ^ n) * 2 powr of_int e"
    unfolding eight by simp
  finally have k: "of_int k * (360 :: real) = of_int (k * 45 * 2 ^ n) * 2 powr of_int e" .
  define m' where "m' = m + k * 45 * 2 ^ n"
  have x': "x + of_int k * 360 = of_int m' * 2 powr of_int e"
    unfolding m(2) k m'_def by (simp add: algebra_simps)
  have pos: "0 < (2 :: real) powr of_int e" by simp
  have "\<bar>of_int m' :: real\<bar> * 2 powr of_int e \<le> \<bar>of_int m\<bar> * 2 powr of_int e"
    using small unfolding x' unfolding m(2) by (simp add: abs_mult)
  then have "\<bar>of_int m' :: real\<bar> \<le> \<bar>of_int m\<bar>" using pos by simp
  then have "\<bar>m'\<bar> \<le> \<bar>m\<bar>" by linarith
  with m(1) have "\<bar>m'\<bar> < 2 ^ 53" by linarith
  with x' show ?thesis unfolding grid_def by blast
qed

lemma normalizeLongitude_down_done: "\<not> lng > 180 \<Longrightarrow> normalizeLongitude_down lng = Some lng"
  by (subst normalizeLongitude_down.simps) simp

lemma normalizeLongitude_down_again:
  "lng > 180 \<Longrightarrow> normalizeLongitude_down lng = normalizeLongitude_down (fl (lng - 360))"
  by (subst normalizeLongitude_down.simps) simp

lemma normalizeLongitude_up_done: "\<not> lng < - 180 \<Longrightarrow> normalizeLongitude_up lng = Some lng"
  by (subst normalizeLongitude_up.simps) simp

lemma normalizeLongitude_up_again:
  "lng < - 180 \<Longrightarrow> normalizeLongitude_up lng = normalizeLongitude_up (fl (lng + 360))"
  by (subst normalizeLongitude_up.simps) simp

lemma fl_int: "\<bar>m\<bar> < 2 ^ 53 \<Longrightarrow> fl (of_int m) = of_int m"
  using fl_exact [of m 0] by simp

text \<open>
  On these doubles \<^verbatim>\<open>normalizeLongitude\<close> returns, with a value in \<open>[-180, 180]\<close> that
  differs from the argument by a whole number of turns.
\<close>

lemma normalizeLongitude_down_small:
  assumes e: "- 1074 \<le> e" "e \<le> 3"
  shows "grid e x \<Longrightarrow>
         \<exists>r. normalizeLongitude_down x = Some r \<and> grid e r \<and> r \<le> 180
             \<and> (- 180 < r \<or> r = x) \<and> (\<exists>k :: int. r = x + of_int k * 360)"
proof (induction "nat \<lceil>(x - 180) / 360\<rceil>" arbitrary: x rule: less_induct)
  case less
  show ?case
  proof (cases "x > 180")
    case False
    have "normalizeLongitude_down x = Some x"
      using False by (subst normalizeLongitude_down.simps) simp
    moreover have "x = x + of_int 0 * 360" by simp
    ultimately show ?thesis using less.prems False by (intro exI [of _ x]) auto
  next
    case True
    have small: "\<bar>x + of_int (- 1) * 360\<bar> \<le> \<bar>x\<bar>" using True by simp
    have g: "grid e (x - 360)"
      using grid_shift [OF less.prems e(2) small] by simp
    have fl: "fl (x - 360) = x - 360" using g e(1) by (rule fl_grid)
    have eq: "(x - 360 - 180) / 360 = (x - 180) / 360 - 1" by (simp add: field_simps)
    have pos: "0 < \<lceil>(x - 180) / 360\<rceil>" using True by simp
    have "\<lceil>(x - 360 - 180) / 360\<rceil> = \<lceil>(x - 180) / 360\<rceil> - 1"
      unfolding eq by simp
    with pos have "nat \<lceil>(x - 360 - 180) / 360\<rceil> < nat \<lceil>(x - 180) / 360\<rceil>" by simp
    from less.hyps [OF this g]
    obtain r and k :: int where r: "normalizeLongitude_down (x - 360) = Some r" "grid e r"
        "r \<le> 180" "- 180 < r \<or> r = x - 360" "r = x - 360 + of_int k * 360"
      by blast
    have "normalizeLongitude_down x = Some r"
      using True r(1) by (subst normalizeLongitude_down.simps) (simp add: fl)
    moreover have "- 180 < r \<or> r = x" using r(4) True by auto
    moreover have "r = x + of_int (k - 1) * 360" using r(5) by (simp add: algebra_simps)
    ultimately show ?thesis using r(2,3) by blast
  qed
qed

lemma normalizeLongitude_up_small:
  assumes e: "- 1074 \<le> e" "e \<le> 3"
  shows "grid e x \<Longrightarrow> x \<le> 180 \<Longrightarrow>
         \<exists>r. normalizeLongitude_up x = Some r \<and> - 180 \<le> r \<and> r \<le> 180
             \<and> (\<exists>k :: int. r = x + of_int k * 360)"
proof (induction "nat \<lceil>(- 180 - x) / 360\<rceil>" arbitrary: x rule: less_induct)
  case less
  show ?case
  proof (cases "x < - 180")
    case False
    have "normalizeLongitude_up x = Some x"
      using False by (subst normalizeLongitude_up.simps) simp
    moreover have "x = x + of_int 0 * 360" by simp
    ultimately show ?thesis using less.prems False by (intro exI [of _ x]) auto
  next
    case True
    have small: "\<bar>x + of_int 1 * 360\<bar> \<le> \<bar>x\<bar>" using True by simp
    have g: "grid e (x + 360)"
      using grid_shift [OF less.prems(1) e(2) small] by simp
    have fl: "fl (x + 360) = x + 360" using g e(1) by (rule fl_grid)
    have le: "x + 360 \<le> 180" using True by simp
    have eq: "(- 180 - (x + 360)) / 360 = (- 180 - x) / 360 - 1" by (simp add: field_simps)
    have pos: "0 < \<lceil>(- 180 - x) / 360\<rceil>" using True by simp
    have "\<lceil>(- 180 - (x + 360)) / 360\<rceil> = \<lceil>(- 180 - x) / 360\<rceil> - 1"
      unfolding eq by simp
    with pos have "nat \<lceil>(- 180 - (x + 360)) / 360\<rceil> < nat \<lceil>(- 180 - x) / 360\<rceil>" by simp
    from less.hyps [OF this g le]
    obtain r and k :: int where r: "normalizeLongitude_up (x + 360) = Some r"
        "- 180 \<le> r" "r \<le> 180" "r = x + 360 + of_int k * 360"
      by blast
    have "normalizeLongitude_up x = Some r"
      using True r(1) by (subst normalizeLongitude_up.simps) (simp add: fl)
    moreover have "r = x + of_int (k + 1) * 360" using r(4) by (simp add: algebra_simps)
    ultimately show ?thesis using r(2,3) by blast
  qed
qed

lemma normalizeLongitude_small:
  assumes "- 1074 \<le> e" "e \<le> 3" "grid e x"
  shows "\<exists>r. normalizeLongitude x = Some r \<and> - 180 \<le> r \<and> r \<le> 180
             \<and> (\<exists>k :: int. r = x + of_int k * 360)"
proof -
  from normalizeLongitude_down_small [OF assms]
  obtain r1 and k1 :: int where r1: "normalizeLongitude_down x = Some r1" "grid e r1"
      "r1 \<le> 180" "r1 = x + of_int k1 * 360"
    by blast
  from normalizeLongitude_up_small [OF assms(1,2) r1(2,3)]
  obtain r and k2 :: int where r: "normalizeLongitude_up r1 = Some r"
      "- 180 \<le> r" "r \<le> 180" "r = r1 + of_int k2 * 360"
    by blast
  have "normalizeLongitude x = Some r" by (simp add: normalizeLongitude_def r1(1) r(1))
  moreover have "r = x + of_int (k1 + k2) * 360"
    unfolding r(4) r1(4) by (simp add: algebra_simps)
  ultimately show ?thesis using r(2,3) by blast
qed

lemma is_double_grid:
  assumes "is_double x" "\<bar>x\<bar> < 2 ^ 56"
  shows "\<exists>e. - 1074 \<le> e \<and> e \<le> 3 \<and> grid e x"
proof -
  from assms(1) obtain m e :: int where m: "\<bar>m\<bar> < 2 ^ 53" "- 1074 \<le> e"
      "x = of_int m * 2 powr of_int e"
    unfolding is_double_def by blast
  show ?thesis
  proof (cases "e \<le> 3")
    case True
    with m show ?thesis unfolding grid_def by blast
  next
    case False
    define n where "n = nat (e - 3)"
    have e: "e = 3 + int n" using False by (simp add: n_def)
    have split: "(2 :: real) powr of_int e = 2 ^ n * 8"
      unfolding e by (simp add: powr_add powr_realpow)
    have x: "x = of_int (m * 2 ^ n) * 2 powr of_int 3"
      unfolding m(3) split by simp
    have "\<bar>of_int (m * 2 ^ n) :: real\<bar> * 8 < 2 ^ 56"
      using assms(2) unfolding x by (simp add: abs_mult)
    then have "\<bar>of_int (m * 2 ^ n) :: real\<bar> < 2 ^ 53" by simp
    then have "\<bar>m * 2 ^ n\<bar> < 2 ^ 53"
      by (metis of_int_abs of_int_less_iff of_int_numeral of_int_power)
    with x show ?thesis unfolding grid_def by (intro exI [of _ 3]) auto
  qed
qed

lemma normalizeLongitude_below_2_56:
  assumes "is_double lng" "\<bar>lng\<bar> < 2 ^ 56"
  shows "\<exists>r. normalizeLongitude lng = Some r \<and> - 180 \<le> r \<and> r \<le> 180
             \<and> (\<exists>k :: int. r = lng + of_int k * 360)"
proof -
  from is_double_grid [OF assms] obtain e where "- 1074 \<le> e" "e \<le> 3" "grid e lng"
    by blast
  then show ?thesis by (rule normalizeLongitude_small)
qed

text \<open>The four fixtures, and the clamp of \<^verbatim>\<open>normalizeLatitude\<close>.\<close>

lemma normalizeLongitude_fixtures:
  "normalizeLongitude 200 = Some (- 160)" "normalizeLongitude (- 200) = Some 160"
proof -
  have a: "fl (200 - 360) = - 160"
    using fl_int [of "- 160"] by simp
  have b: "fl (- 200 + 360) = 160"
    using fl_int [of 160] by simp
  have "normalizeLongitude_down 200 = normalizeLongitude_down (fl (200 - 360))"
    by (rule normalizeLongitude_down_again) simp
  also have "\<dots> = Some (- 160)"
    unfolding a by (rule normalizeLongitude_down_done) simp
  finally have d1: "normalizeLongitude_down 200 = Some (- 160)" .
  have u1: "normalizeLongitude_up (- 160) = Some (- 160)"
    by (rule normalizeLongitude_up_done) simp
  show "normalizeLongitude 200 = Some (- 160)"
    by (simp add: normalizeLongitude_def d1 u1)
  have d2: "normalizeLongitude_down (- 200) = Some (- 200)"
    by (rule normalizeLongitude_down_done) simp
  have "normalizeLongitude_up (- 200) = normalizeLongitude_up (fl (- 200 + 360))"
    by (rule normalizeLongitude_up_again) simp
  also have "\<dots> = Some 160"
    unfolding b by (rule normalizeLongitude_up_done) simp
  finally have u2: "normalizeLongitude_up (- 200) = Some 160" .
  show "normalizeLongitude (- 200) = Some 160"
    by (simp add: normalizeLongitude_def d2 u2)
qed

lemma normalizeLatitude_clamps:
  "normalizeLatitude lat = (if lat > 90 then 90 else if lat < - 90 then - 90 else lat)"
  "- 90 \<le> normalizeLatitude lat" "normalizeLatitude lat \<le> 90"
  "normalizeLatitude 95 = 90" "normalizeLatitude (- 95) = - 90"
  by (simp_all add: normalizeLatitude_def)

text \<open>
  The doubles near \<open>10\<^sup>1\<^sup>9\<close> are 2048 apart, so \<open>10\<^sup>1\<^sup>9 - 360\<close> is rounded back to \<open>10\<^sup>1\<^sup>9\<close>.
\<close>

lemma ulp_exponent_eq:
  assumes "2 powr of_int k \<le> \<bar>x\<bar>" "\<bar>x\<bar> < 2 powr of_int (k + 1)" "- 1022 \<le> k"
  shows "ulp_exponent x = k - 52"
proof -
  have pos: "0 < \<bar>x\<bar>" using assms(1) powr_gt_zero [of 2 "of_int k"] by linarith
  have "\<lfloor>log 2 \<bar>x\<bar>\<rfloor> = k"
    using assms(1,2) pos by (subst floor_log_eq_powr_iff) simp_all
  with assms(3) show ?thesis by (simp add: ulp_exponent_def)
qed

lemma fl_stuck: "fl (10 ^ 19 - 360) = 10 ^ 19"
proof -
  have u: "ulp_exponent (10 ^ 19 - 360) = 63 - 52"
    by (rule ulp_exponent_eq) simp_all
  have q: "(10 ^ 19 - 360) / 2 powr of_int (63 - 52) = (1249999999999999955 / 256 :: real)"
    by simp
  have r: "round_half_even (1249999999999999955 / 256) = 4882812500000000"
    by (simp add: round_half_even_def Let_def)
  show ?thesis
    unfolding fl_def u q r by simp
qed

lemma is_double_1e19: "is_double (10 ^ 19)"
  unfolding is_double_def
  by (rule exI [of _ "5 ^ 19"], rule exI [of _ 19]) simp

lemma normalizeLongitude_down_stuck: "normalizeLongitude_down (10 ^ 19) = None"
proof (cases "normalizeLongitude_down (10 ^ 19)")
  case None
  then show ?thesis .
next
  case (Some y)
  have "normalizeLongitude_down lng = Some r \<Longrightarrow> lng \<noteq> 10 ^ 19" for lng r
  proof (induction lng r rule: normalizeLongitude_down.raw_induct [rotated 1, consumes 1, case_names step])
    case (step down lng r)
    show ?case
    proof
      assume eq: "lng = 10 ^ 19"
      with step(2) have "down (fl (10 ^ 19 - 360)) = Some r" by simp
      then have "down (10 ^ 19) = Some r" by (simp only: fl_stuck)
      from step(1) [OF this] show False by simp
    qed
  qed
  from this [OF Some] show ?thesis by simp
qed

text \<open>
  C8. \<^verbatim>\<open>normalizeLongitude\<close> is to map every input into \<open>[-180, 180]\<close> by repeated
  adjustment by 360. At the double \<open>10\<^sup>1\<^sup>9\<close> the first loop never ends, because subtracting
  360 does not change the number: the call does not return.
\<close>

theorem normalizeLongitude_never_returns:
  "is_double (10 ^ 19)
   \<and> (180 :: real) < 10 ^ 19
   \<and> fl (10 ^ 19 - 360) = 10 ^ 19
   \<and> normalizeLongitude (10 ^ 19) = None"
  using is_double_1e19 fl_stuck normalizeLongitude_down_stuck
  by (simp add: normalizeLongitude_def)

subsection \<open>Condition polling\<close>

lemma logger_debug_simps:
  "clock (logger_debug m w) = clock w"
  "evaluations (logger_debug m w) = evaluations w"
  "page_state (logger_debug m w) = page_state w"
  "closes_at (logger_debug m w) = closes_at w"
  by (simp_all add: logger_debug_def)

lemma page_waitForTimeout_simps:
  "evaluations (snd (page_waitForTimeout ms w)) = evaluations w"
  "page_state (snd (page_waitForTimeout ms w)) = page_state w"
  "logged (snd (page_waitForTimeout ms w)) = logged w"
  "closes_at (snd (page_waitForTimeout ms w)) = closes_at w"
  "clock w \<le> clock (snd (page_waitForTimeout ms w))"
  by (simp_all add: page_waitForTimeout_def Let_def split: option.splits)

lemma page_waitForTimeout_resolves:
  "fst (page_waitForTimeout ms w) = Inr u \<Longrightarrow>
   clock (snd (page_waitForTimeout ms w)) = clock w + max 0 ms"
  by (auto simp: page_waitForTimeout_def Let_def split: option.splits if_splits)

lemma page_waitForTimeout_open:
  "closes_at w = None \<Longrightarrow> page_waitForTimeout ms w = (Inr (), w\<lparr>clock := clock w + max 0 ms\<rparr>)"
  by (simp add: page_waitForTimeout_def)

lemma page_waitForTimeout_rejects:
  "fst (page_waitForTimeout ms w) = Inl e \<Longrightarrow> e = TargetClosedError \<and> closes_at w \<noteq> None"
  by (auto simp: page_waitForTimeout_def Let_def split: option.splits if_splits)

lemma await_condition_simps:
  "evaluations (snd (await_condition c w)) = evaluations w + 1"
  "clock w \<le> clock (snd (await_condition c w))"
  "logged (snd (await_condition c w)) = logged w"
  "closes_at (snd (await_condition c w)) = closes_at w"
  by (simp_all add: await_condition_def split: prod.splits)

lemma try_condition_simps:
  "evaluations (snd (try_condition c d w)) = evaluations w + 1"
  "clock w \<le> clock (snd (try_condition c d w))"
  "closes_at (snd (try_condition c d w)) = closes_at w"
  using await_condition_simps [where c = c and w = w]
  by (auto simp: try_condition_def logger_debug_simps template_string_def
      split: prod.splits outcome.splits thrown.splits)

lemma try_condition_met:
  "fst (await_condition c w) = Resolves True \<Longrightarrow>
   try_condition c d w = (Inr True, logger_debug (d @ '' met'') (snd (await_condition c w)))"
  by (auto simp: try_condition_def split: prod.splits outcome.splits)

lemma try_condition_escaped:
  "fst (try_condition c d w) = Inl e \<longleftrightarrow>
   e = TypeError \<and> fst (await_condition c w) = Rejects Unprintable"
  by (auto simp: try_condition_def template_string_def
      split: prod.splits outcome.splits thrown.splits)

lemma try_condition_goes_on:
  "fst (await_condition c w) \<noteq> Resolves True \<Longrightarrow>
   fst (await_condition c w) \<noteq> Rejects Unprintable \<Longrightarrow>
   fst (try_condition c d w) = Inr False"
  by (auto simp: try_condition_def template_string_def
      split: prod.splits outcome.splits thrown.splits)

lemma await_condition_printable:
  assumes "printable_only c"
  shows "fst (await_condition c w) \<noteq> Rejects Unprintable"
proof -
  obtain r q n where c: "c (clock w) (page_state w) = (r, q, n)"
    by (cases "c (clock w) (page_state w)")
  from assms have "fst (c (clock w) (page_state w)) \<noteq> Rejects Unprintable"
    unfolding printable_only_def by blast
  with c show ?thesis by (simp add: await_condition_def)
qed

lemma failed_cycle_simps:
  "evaluations (failed_cycle c interval d w) = evaluations w + 1"
  "closes_at (failed_cycle c interval d w) = closes_at w"
  by (simp_all add: failed_cycle_def page_waitForTimeout_simps try_condition_simps)

text \<open>What the loop body does, case by case.\<close>

lemma loop_body_next:
  assumes "loop_body c interval d w = Inr w'"
  shows "w' = failed_cycle c interval d w"
    and "evaluations w' = evaluations w + 1"
    and "closes_at w' = closes_at w"
    and "clock w + max 0 interval \<le> clock w'"
proof -
  obtain r w1 where t: "try_condition c d w = (r, w1)" by (cases "try_condition c d w")
  obtain s w2 where p: "page_waitForTimeout interval w1 = (s, w2)"
    by (cases "page_waitForTimeout interval w1")
  from assms t p have r: "r = Inr False" and s: "s = Inr ()" and w': "w' = w2"
    by (auto simp: loop_body_def split: sum.splits if_splits)
  show eq: "w' = failed_cycle c interval d w"
    by (simp add: failed_cycle_def t p w')
  show "evaluations w' = evaluations w + 1" "closes_at w' = closes_at w"
    unfolding eq by (rule failed_cycle_simps)+
  have "clock w2 = clock w1 + max 0 interval"
    using page_waitForTimeout_resolves [of interval w1 "()"] p s by simp
  moreover have "clock w \<le> clock w1"
    using try_condition_simps(2) [of w c d] t by simp
  ultimately show "clock w + max 0 interval \<le> clock w'" unfolding w' by linarith
qed

lemma loop_body_final:
  assumes "loop_body c interval d w = Inl (r, w')"
  shows "evaluations w' = evaluations w + 1"
    and "r = Inl e \<Longrightarrow>
           (e = TargetClosedError \<and> closes_at w \<noteq> None)
         \<or> (e = TypeError \<and> fst (await_condition c w) = Rejects Unprintable)"
    and "r = Inr () \<longleftrightarrow> fst (await_condition c w) = Resolves True"
proof -
  obtain t w1 where t: "try_condition c d w = (t, w1)" by (cases "try_condition c d w")
  obtain s w2 where p: "page_waitForTimeout interval w1 = (s, w2)"
    by (cases "page_waitForTimeout interval w1")
  have ev1: "evaluations w1 = evaluations w + 1"
    using try_condition_simps(1) [of c d w] t by simp
  have ev2: "evaluations w2 = evaluations w1"
    using page_waitForTimeout_simps(1) [of interval w1] p by simp
  have cl: "closes_at w1 = closes_at w"
    using try_condition_simps(3) [of c d w] t by simp
  from assms t p show "evaluations w' = evaluations w + 1"
    using ev1 ev2 by (auto simp: loop_body_def split: sum.splits if_splits)
  {
    assume r: "r = Inl e"
    show "(e = TargetClosedError \<and> closes_at w \<noteq> None)
         \<or> (e = TypeError \<and> fst (await_condition c w) = Rejects Unprintable)"
    proof (cases t)
      case (Inl e')
      with assms t r have "e' = e" by (simp add: loop_body_def)
      with Inl t have "fst (try_condition c d w) = Inl e" by simp
      then show ?thesis by (simp add: try_condition_escaped)
    next
      case (Inr b)
      with assms t p r have "s = Inl e"
        by (auto simp: loop_body_def split: sum.splits if_splits)
      with p have "fst (page_waitForTimeout interval w1) = Inl e" by simp
      from page_waitForTimeout_rejects [OF this] cl show ?thesis by simp
    qed
  }
  show "r = Inr () \<longleftrightarrow> fst (await_condition c w) = Resolves True"
  proof
    assume "r = Inr ()"
    with assms t p have "t = Inr True"
      by (auto simp: loop_body_def split: sum.splits if_splits)
    with t show "fst (await_condition c w) = Resolves True"
      by (auto simp: try_condition_def template_string_def
          split: prod.splits outcome.splits thrown.splits option.splits if_splits)
  next
    assume "fst (await_condition c w) = Resolves True"
    from try_condition_met [OF this, of d] t assms show "r = Inr ()"
      by (simp add: loop_body_def)
  qed
qed

lemma loop_body_met:
  "fst (await_condition c w) = Resolves True \<Longrightarrow>
   loop_body c interval d w =
     Inl (Inr (), logger_debug (d @ '' met'') (snd (await_condition c w)))"
  by (simp add: loop_body_def try_condition_met)

lemma loop_body_goes_on:
  assumes "closes_at w = None"
    and "fst (await_condition c w) \<noteq> Resolves True"
    and "fst (await_condition c w) \<noteq> Rejects Unprintable"
  shows "loop_body c interval d w = Inr (failed_cycle c interval d w)"
proof -
  obtain t w1 where t: "try_condition c d w = (t, w1)" by (cases "try_condition c d w")
  have "t = Inr False" using try_condition_goes_on [OF assms(2,3), of d] t by simp
  moreover have "closes_at w1 = None"
    using try_condition_simps(3) [of c d w] t assms(1) by simp
  ultimately show ?thesis
    by (simp add: loop_body_def failed_cycle_def t page_waitForTimeout_open)
qed

lemma waitForCondition_loop_timeout:
  "\<not> clock w - startTime < timeout \<Longrightarrow>
   waitForCondition_loop c timeout interval d startTime w =
     Some (Inl (TimeoutError (''Waiting for '' @ d) timeout), w)"
  by (subst waitForCondition_loop.simps) simp

lemma waitForCondition_loop_final:
  "clock w - startTime < timeout \<Longrightarrow> loop_body c interval d w = Inl r \<Longrightarrow>
   waitForCondition_loop c timeout interval d startTime w = Some r"
  by (subst waitForCondition_loop.simps) simp

lemma waitForCondition_loop_next:
  "clock w - startTime < timeout \<Longrightarrow> loop_body c interval d w = Inr w' \<Longrightarrow>
   waitForCondition_loop c timeout interval d startTime w =
     waitForCondition_loop c timeout interval d startTime w'"
  by (subst waitForCondition_loop.simps) simp

lemma waitForCondition_loop_met:
  "clock w - startTime < timeout \<Longrightarrow> fst (await_condition c w) = Resolves True \<Longrightarrow>
   waitForCondition_loop c timeout interval d startTime w =
     Some (Inr (), logger_debug (d @ '' met'') (snd (await_condition c w)))"
  by (simp add: waitForCondition_loop_final loop_body_met)

lemma waitForCondition_loop_error:
  "waitForCondition_loop c timeout interval d startTime w = Some y \<Longrightarrow>
   (\<forall>e. fst y = Inl e \<longrightarrow>
      (e = TimeoutError (''Waiting for '' @ d) timeout \<and> timeout \<le> clock (snd y) - startTime)
      \<or> (e = TargetClosedError \<and> closes_at w \<noteq> None)
      \<or> (e = TypeError \<and> \<not> printable_only c))"
proof (induction c timeout interval d startTime w y
         rule: waitForCondition_loop.raw_induct [rotated 1, consumes 1, case_names step])
  case (step loop c timeout interval d startTime w y)
  show ?case
  proof (cases "clock w - startTime < timeout")
    case False
    with step(2) show ?thesis by auto
  next
    case True
    note guard = True
    show ?thesis
    proof (cases "loop_body c interval d w")
      case (Inl result)
      with step(2) guard have y: "y = result" by simp
      obtain r w' where result: "result = (r, w')" by (cases result)
      show ?thesis
      proof (intro allI impI)
        fix e assume "fst y = Inl e"
        then have "r = Inl e" by (simp add: y result)
        from loop_body_final(2) [OF Inl [unfolded result] this]
        show "(e = TimeoutError (''Waiting for '' @ d) timeout
                 \<and> timeout \<le> clock (snd y) - startTime)
              \<or> (e = TargetClosedError \<and> closes_at w \<noteq> None)
              \<or> (e = TypeError \<and> \<not> printable_only c)"
          using await_condition_printable [of c w] by blast
      qed
    next
      case (Inr w')
      with step(2) guard have "loop c timeout interval d startTime w' = Some y" by simp
      from step(1) [OF this] show ?thesis
        by (simp add: loop_body_next(3) [OF Inr])
    qed
  qed
qed

lemma waitForCondition_loop_evaluations:
  "waitForCondition_loop c timeout interval d startTime w = Some y \<Longrightarrow>
   evaluations w \<le> evaluations (snd y) \<and>
   (clock w - startTime < timeout \<longrightarrow> evaluations w < evaluations (snd y))"
proof (induction c timeout interval d startTime w y
         rule: waitForCondition_loop.raw_induct [rotated 1, consumes 1, case_names step])
  case (step loop c timeout interval d startTime w y)
  show ?case
  proof (cases "clock w - startTime < timeout")
    case False
    with step(2) show ?thesis by auto
  next
    case True
    note guard = True
    show ?thesis
    proof (cases "loop_body c interval d w")
      case (Inl result)
      with step(2) guard have y: "y = result" by simp
      obtain r w' where result: "result = (r, w')" by (cases result)
      from loop_body_final(1) [OF Inl [unfolded result]] show ?thesis
        by (simp add: y result)
    next
      case (Inr w')
      with step(2) guard have "loop c timeout interval d startTime w' = Some y" by simp
      from step(1) [OF this] loop_body_next(2) [OF Inr] show ?thesis by simp
    qed
  qed
qed

lemma waitForCondition_loop_returns:
  assumes "0 < interval"
  shows "\<exists>y. waitForCondition_loop c timeout interval d startTime w = Some y"
proof (induction "nat (timeout - (clock w - startTime))" arbitrary: w rule: less_induct)
  case less
  show ?case
  proof (cases "clock w - startTime < timeout")
    case False
    then show ?thesis by (simp add: waitForCondition_loop_timeout)
  next
    case True
    note guard = True
    show ?thesis
    proof (cases "loop_body c interval d w")
      case (Inl result)
      with guard show ?thesis by (simp add: waitForCondition_loop_final)
    next
      case (Inr w')
      have "clock w + interval \<le> clock w'"
        using loop_body_next(4) [OF Inr] by linarith
      with assms guard
      have "nat (timeout - (clock w' - startTime)) < nat (timeout - (clock w - startTime))"
        by linarith
      from less [OF this] show ?thesis
        using guard Inr by (simp add: waitForCondition_loop_next)
    qed
  qed
qed

lemma waitForCondition_loop_succeeds_after:
  assumes "closes_at w = None"
    and "\<forall>j<k. in_budget startTime timeout ((failed_cycle c interval d ^^ j) w)
                \<and> fst (await_condition c ((failed_cycle c interval d ^^ j) w)) \<noteq> Resolves True
                \<and> fst (await_condition c ((failed_cycle c interval d ^^ j) w)) \<noteq> Rejects Unprintable"
    and "in_budget startTime timeout ((failed_cycle c interval d ^^ k) w)"
    and "fst (await_condition c ((failed_cycle c interval d ^^ k) w)) = Resolves True"
  shows "waitForCondition_loop c timeout interval d startTime w =
           Some (Inr (), logger_debug (d @ '' met'')
                           (snd (await_condition c ((failed_cycle c interval d ^^ k) w))))"
  using assms
proof (induction k arbitrary: w)
  case 0
  then show ?case by (simp add: waitForCondition_loop_met in_budget_def)
next
  case (Suc k)
  let ?f = "failed_cycle c interval d"
  have first: "in_budget startTime timeout w" "fst (await_condition c w) \<noteq> Resolves True"
      "fst (await_condition c w) \<noteq> Rejects Unprintable"
    using Suc.prems(2) by (auto dest: spec [of _ 0])
  have body: "loop_body c interval d w = Inr (?f w)"
    using Suc.prems(1) first(2,3) by (rule loop_body_goes_on)
  have step: "waitForCondition_loop c timeout interval d startTime w =
              waitForCondition_loop c timeout interval d startTime (?f w)"
    using first(1) body unfolding in_budget_def by (rule waitForCondition_loop_next)
  have op: "closes_at (?f w) = None" using Suc.prems(1) by (simp add: failed_cycle_simps)
  have rest: "\<forall>j<k. in_budget startTime timeout ((?f ^^ j) (?f w))
                \<and> fst (await_condition c ((?f ^^ j) (?f w))) \<noteq> Resolves True
                \<and> fst (await_condition c ((?f ^^ j) (?f w))) \<noteq> Rejects Unprintable"
  proof (intro allI impI)
    fix j assume "j < k"
    then have "Suc j < Suc k" by simp
    with Suc.prems(2) show "in_budget startTime timeout ((?f ^^ j) (?f w))
                \<and> fst (await_condition c ((?f ^^ j) (?f w))) \<noteq> Resolves True
                \<and> fst (await_condition c ((?f ^^ j) (?f w))) \<noteq> Rejects Unprintable"
      by (metis funpow_Suc_right o_apply)
  qed
  have "waitForCondition_loop c timeout interval d startTime (?f w) =
           Some (Inr (), logger_debug (d @ '' met'')
                           (snd (await_condition c ((?f ^^ k) (?f w)))))"
    using Suc.prems(3,4) by (intro Suc.IH op rest) (simp_all add: funpow_Suc_right del: funpow.simps)
  then show ?case
    unfolding step by (simp add: funpow_Suc_right del: funpow.simps)
qed

text \<open>
  The legacy loop has no \<^verbatim>\<open>try\<close>: there the first rejection of the predicate ends the wait.
\<close>

lemma GISHelpers_waitForCondition_rejection_escapes:
  "GISHelpers_waitForCondition flaky
     \<lparr>opt_timeout = Some 200, opt_interval = Some 50, opt_description = Some ''map ready''\<rparr>
     (world0 0)
   = Some (Inl (Thrown (Printable ''page not ready'')),
           \<lparr>clock = 10, page_state = 1, closes_at = None, evaluations = 1, logged = []\<rparr>)"
  by (simp add: GISHelpers_waitForCondition_def GISHelpers_waitForCondition_loop.simps
        default_to_def world0_def flaky_def await_condition_def)

text \<open>
  C1, as stated: the predicate is evaluated at least once however small the timeout is,
  and with timeout 0 a predicate that returns true makes the call succeed. The loop tests
  the elapsed time before it evaluates the predicate: with timeout 0 the predicate that is
  always true is never evaluated and the call throws \<^verbatim>\<open>TimeoutError\<close>.
\<close>

theorem waitForCondition_timeout_zero_counterexample:
  "waitForCondition always_true
     \<lparr>opt_timeout = Some 0, opt_interval = None, opt_description = None\<rparr> (world0 ())
   = Some (Inl (TimeoutError ''Waiting for condition'' 0),
           \<lparr>clock = 0, page_state = (), closes_at = None, evaluations = 0,
              logged = [Debug ''Waiting for condition...'']\<rparr>)"
  by (simp add: waitForCondition_def waitForCondition_loop.simps default_to_def world0_def
        logger_debug_def)

text \<open>
  C1, amended. With a timeout of 0 or less no evaluation is made and the call throws
  \<^verbatim>\<open>TimeoutError\<close> at once, whatever the predicate would return. With a positive timeout
  the predicate is evaluated at least once by every call that returns, every call with a
  positive interval returns, and a predicate that returns true on the first evaluation
  makes the call succeed after exactly one evaluation.
\<close>

theorem waitForCondition_first_evaluation:
  fixes condition :: "'p condition" and options :: WaitOptions and w :: "'p world"
  defines "timeout \<equiv> default_to 5000 (opt_timeout options)"
    and "interval \<equiv> default_to 100 (opt_interval options)"
    and "description \<equiv> default_to ''condition'' (opt_description options)"
  shows
  "(timeout \<le> 0 \<longrightarrow>
      waitForCondition condition options w =
        Some (Inl (TimeoutError (''Waiting for '' @ description) timeout),
              logger_debug (''Waiting for '' @ description @ ''...'') w))
   \<and> (0 < timeout \<longrightarrow>
        (\<forall>y. waitForCondition condition options w = Some y \<longrightarrow>
               evaluations w < evaluations (snd y)))
   \<and> (0 < timeout \<and> 0 < interval \<longrightarrow>
        (\<exists>y. waitForCondition condition options w = Some y
              \<and> evaluations w < evaluations (snd y)))
   \<and> (0 < timeout \<and> fst (condition (clock w) (page_state w)) = Resolves True \<longrightarrow>
        (\<exists>w'. waitForCondition condition options w = Some (Inr (), w')
               \<and> evaluations w' = evaluations w + 1))"
proof -
  define w0 where "w0 = logger_debug (''Waiting for '' @ description @ ''...'') w"
  have run: "waitForCondition condition options w =
               waitForCondition_loop condition timeout interval description (clock w) w0"
    by (simp add: waitForCondition_def Let_def timeout_def interval_def description_def w0_def)
  have w0: "clock w0 = clock w" "evaluations w0 = evaluations w" "page_state w0 = page_state w"
    by (simp_all add: w0_def logger_debug_simps)
  have none: "waitForCondition condition options w =
                Some (Inl (TimeoutError (''Waiting for '' @ description) timeout), w0)"
    if "timeout \<le> 0"
    unfolding run using that by (intro waitForCondition_loop_timeout) (simp add: w0)
  have atleast: "evaluations w < evaluations (snd y)"
    if "0 < timeout" "waitForCondition condition options w = Some y" for y
    using waitForCondition_loop_evaluations
            [of condition timeout interval description "clock w" w0 y] that
    by (simp add: run w0)
  have total: "\<exists>y. waitForCondition condition options w = Some y
                    \<and> evaluations w < evaluations (snd y)"
    if "0 < timeout" "0 < interval"
    using waitForCondition_loop_returns [OF that(2), of condition timeout description "clock w" w0]
          atleast [OF that(1)]
    by (auto simp: run)
  have first: "\<exists>w'. waitForCondition condition options w = Some (Inr (), w')
                     \<and> evaluations w' = evaluations w + 1"
    if "0 < timeout" "fst (condition (clock w) (page_state w)) = Resolves True"
  proof -
    have "fst (await_condition condition w0) = Resolves True"
      using that(2) by (auto simp: await_condition_def w0 split: prod.splits)
    moreover have "clock w0 - clock w < timeout" using that(1) by (simp add: w0)
    ultimately have "waitForCondition condition options w =
        Some (Inr (), logger_debug (description @ '' met'') (snd (await_condition condition w0)))"
      unfolding run by (intro waitForCondition_loop_met)
    then show ?thesis
      by (simp add: logger_debug_simps await_condition_simps w0)
  qed
  show ?thesis
    using none atleast total first unfolding w0_def by blast
qed

theorem waitForCondition_first_evaluation_witness:
  "waitForCondition flaky
     \<lparr>opt_timeout = Some (- 1), opt_interval = Some 50, opt_description = Some ''map ready''\<rparr>
     (world0 0)
   = Some (Inl (TimeoutError ''Waiting for map ready'' (- 1)),
           \<lparr>clock = 0, page_state = 0, closes_at = None, evaluations = 0,
              logged = [Debug ''Waiting for map ready...'']\<rparr>)
   \<and> (\<exists>w'. waitForCondition always_true
              \<lparr>opt_timeout = Some 1, opt_interval = Some 50, opt_description = None\<rparr>
              (world0 ()) = Some (Inr (), w')
            \<and> evaluations w' = 1)
   \<and> (\<exists>y. waitForCondition always_true
             \<lparr>opt_timeout = Some 1, opt_interval = Some 50, opt_description = None\<rparr>
             (world0 ()) = Some y
           \<and> evaluations (world0 ()) < evaluations (snd y))"
  using waitForCondition_first_evaluation
          [where condition = flaky and w = "world0 0"
             and options = "\<lparr>opt_timeout = Some (- 1), opt_interval = Some 50,
                             opt_description = Some ''map ready''\<rparr>"]
        waitForCondition_first_evaluation
          [where condition = always_true and w = "world0 ()"
             and options = "\<lparr>opt_timeout = Some 1, opt_interval = Some 50,
                             opt_description = None\<rparr>"]
  by (simp add: default_to_def world0_def logger_debug_def always_true_def)

text \<open>
  C2, as stated: \<^verbatim>\<open>TimeoutError\<close> is the only error the call throws, and only after the time
  budget is exhausted. The sleep stands outside the \<^verbatim>\<open>try\<close>: when the page is closed 30 ms
  into a wait with a budget of 200 ms, \<^verbatim>\<open>page.waitForTimeout\<close> rejects and its error leaves
  the call. And a predicate that throws a value without a string conversion, such as a
  symbol, makes the \<^verbatim>\<open>catch\<close> block itself throw a \<^verbatim>\<open>TypeError\<close> on its first evaluation.
\<close>

theorem waitForCondition_other_errors_counterexample:
  "waitForCondition flaky
     \<lparr>opt_timeout = Some 200, opt_interval = Some 50, opt_description = Some ''map ready''\<rparr>
     \<lparr>clock = 0, page_state = 0, closes_at = Some 30, evaluations = 0, logged = []\<rparr>
   = Some (Inl TargetClosedError,
           \<lparr>clock = 30, page_state = 1, closes_at = Some 30, evaluations = 1,
              logged = [Debug ''Waiting for map ready...'',
                        Debug ''Error checking map ready: page not ready'']\<rparr>)
   \<and> waitForCondition throws_symbol
     \<lparr>opt_timeout = Some 200, opt_interval = Some 50, opt_description = Some ''map ready''\<rparr>
     \<lparr>clock = 0, page_state = (), closes_at = None, evaluations = 0, logged = []\<rparr>
   = Some (Inl TypeError,
           \<lparr>clock = 0, page_state = (), closes_at = None, evaluations = 1,
              logged = [Debug ''Waiting for map ready...'']\<rparr>)"
  by (simp add: waitForCondition_def waitForCondition_loop.simps default_to_def
        logger_debug_def flaky_def throws_symbol_def await_condition_def try_condition_def
        loop_body_def template_string_def page_waitForTimeout_def)

text \<open>
  C2, amended. For a predicate whose thrown values can be converted to a string:
  \<^verbatim>\<open>waitForCondition\<close> throws \<^verbatim>\<open>TimeoutError\<close> only when the clock has advanced by at least
  the timeout, and the only other error it throws is the rejection of
  \<^verbatim>\<open>page.waitForTimeout\<close>, which needs the page to be closed; with a positive interval the
  call always returns. While the page stays open, a rejection of the predicate inside the
  budget is logged and the loop goes on with the sleep and the next check; and if the first
  \<open>k\<close> evaluations fail (they throw such a value, or return false) and evaluation \<open>k + 1\<close>
  is made within the budget and returns true, the call succeeds.
\<close>

theorem waitForCondition_errors:
  fixes condition :: "'p condition" and options :: WaitOptions and w :: "'p world"
  defines "timeout \<equiv> default_to 5000 (opt_timeout options)"
    and "interval \<equiv> default_to 100 (opt_interval options)"
    and "description \<equiv> default_to ''condition'' (opt_description options)"
  defines "w0 \<equiv> logger_debug (''Waiting for '' @ description @ ''...'') w"
  defines "cycle \<equiv> failed_cycle condition interval description"
  shows
  "(printable_only condition \<longrightarrow>
      (\<forall>e w'. waitForCondition condition options w = Some (Inl e, w') \<longrightarrow>
         (e = TimeoutError (''Waiting for '' @ description) timeout
            \<and> timeout \<le> clock w' - clock w)
         \<or> (e = TargetClosedError \<and> closes_at w \<noteq> None)))
   \<and> (0 < interval \<longrightarrow> (\<exists>y. waitForCondition condition options w = Some y))
   \<and> (closes_at w = None
       \<and> (\<forall>j<k. in_budget (clock w) timeout ((cycle ^^ j) w0)
               \<and> fst (await_condition condition ((cycle ^^ j) w0)) \<noteq> Resolves True
               \<and> fst (await_condition condition ((cycle ^^ j) w0)) \<noteq> Rejects Unprintable)
       \<and> in_budget (clock w) timeout ((cycle ^^ k) w0)
       \<and> fst (await_condition condition ((cycle ^^ k) w0)) = Resolves True
       \<longrightarrow> waitForCondition condition options w =
             Some (Inr (), logger_debug (description @ '' met'')
                             (snd (await_condition condition ((cycle ^^ k) w0)))))
   \<and> (\<forall>v e v1. closes_at v = None \<and> in_budget (clock w) timeout v
         \<and> await_condition condition v = (Rejects (Printable e), v1) \<longrightarrow>
         waitForCondition_loop condition timeout interval description (clock w) v =
         waitForCondition_loop condition timeout interval description (clock w)
           (snd (page_waitForTimeout interval
                   (logger_debug (''Error checking '' @ description @ '': '' @ e) v1))))"
proof -
  have run: "waitForCondition condition options w =
               waitForCondition_loop condition timeout interval description (clock w) w0"
    by (simp add: waitForCondition_def Let_def timeout_def interval_def description_def w0_def)
  have w0: "closes_at w0 = closes_at w" by (simp add: w0_def logger_debug_simps)
  have err: "(e = TimeoutError (''Waiting for '' @ description) timeout
               \<and> timeout \<le> clock w' - clock w)
             \<or> (e = TargetClosedError \<and> closes_at w \<noteq> None)"
    if "printable_only condition" "waitForCondition condition options w = Some (Inl e, w')"
    for e w'
    using waitForCondition_loop_error
            [of condition timeout interval description "clock w" w0 "(Inl e, w')"] that
    by (simp add: run w0)
  have total: "\<exists>y. waitForCondition condition options w = Some y" if "0 < interval"
    unfolding run using that by (rule waitForCondition_loop_returns)
  have later: "waitForCondition condition options w =
             Some (Inr (), logger_debug (description @ '' met'')
                             (snd (await_condition condition ((cycle ^^ k) w0))))"
    if "closes_at w = None"
      and "\<forall>j<k. in_budget (clock w) timeout ((cycle ^^ j) w0)
               \<and> fst (await_condition condition ((cycle ^^ j) w0)) \<noteq> Resolves True
               \<and> fst (await_condition condition ((cycle ^^ j) w0)) \<noteq> Rejects Unprintable"
      and "in_budget (clock w) timeout ((cycle ^^ k) w0)"
      and "fst (await_condition condition ((cycle ^^ k) w0)) = Resolves True"
  proof -
    have "closes_at w0 = None" using that(1) by (simp add: w0)
    then show ?thesis
      unfolding run cycle_def
      using that(2-4) unfolding cycle_def by (rule waitForCondition_loop_succeeds_after)
  qed
  have absorbed: "waitForCondition_loop condition timeout interval description (clock w) v =
         waitForCondition_loop condition timeout interval description (clock w)
           (snd (page_waitForTimeout interval
                   (logger_debug (''Error checking '' @ description @ '': '' @ e) v1)))"
    if "closes_at v = None" "in_budget (clock w) timeout v"
       "await_condition condition v = (Rejects (Printable e), v1)" for v e v1
  proof -
    have "closes_at v1 = None"
      using await_condition_simps(4) [of condition v] that(1,3) by simp
    then show ?thesis
      using that
      by (subst waitForCondition_loop.simps)
         (simp add: in_budget_def loop_body_def try_condition_def template_string_def
            page_waitForTimeout_open logger_debug_simps)
  qed
  show ?thesis
    using err total later absorbed by blast
qed

theorem waitForCondition_errors_witness:
  "printable_only flaky
   \<and> waitForCondition flaky
     \<lparr>opt_timeout = Some 200, opt_interval = Some 50, opt_description = Some ''map ready''\<rparr>
     (world0 0)
   = Some (Inr (),
           \<lparr>clock = 130, page_state = 3, closes_at = None, evaluations = 3,
              logged = [Debug ''Waiting for map ready...'',
                        Debug ''Error checking map ready: page not ready'',
                        Debug ''Error checking map ready: page not ready'',
                        Debug ''map ready met'']\<rparr>)
   \<and> waitForCondition flaky
     \<lparr>opt_timeout = Some 100, opt_interval = Some 50, opt_description = Some ''map ready''\<rparr>
     (world0 0)
   = Some (Inl (TimeoutError ''Waiting for map ready'' 100),
           \<lparr>clock = 120, page_state = 2, closes_at = None, evaluations = 2,
              logged = [Debug ''Waiting for map ready...'',
                        Debug ''Error checking map ready: page not ready'',
                        Debug ''Error checking map ready: page not ready'']\<rparr>)
   \<and> (100 :: int) \<le> 120 - clock (world0 (0 :: nat))"
proof -
  have printable: "printable_only flaky"
    by (simp add: printable_only_def flaky_def)
  have late: "waitForCondition flaky
     \<lparr>opt_timeout = Some 100, opt_interval = Some 50, opt_description = Some ''map ready''\<rparr>
     (world0 0)
   = Some (Inl (TimeoutError ''Waiting for map ready'' 100),
           \<lparr>clock = 120, page_state = 2, closes_at = None, evaluations = 2,
              logged = [Debug ''Waiting for map ready...'',
                        Debug ''Error checking map ready: page not ready'',
                        Debug ''Error checking map ready: page not ready'']\<rparr>)"
    by (simp add: waitForCondition_def waitForCondition_loop.simps default_to_def world0_def
          logger_debug_def flaky_def await_condition_def try_condition_def loop_body_def
          template_string_def page_waitForTimeout_def)
  show ?thesis
    using waitForCondition_errors
            [where condition = flaky and w = "world0 0" and k = 2
               and options = "\<lparr>opt_timeout = Some 200, opt_interval = Some 50,
                               opt_description = Some ''map ready''\<rparr>"]
          waitForCondition_errors
            [where condition = flaky and w = "world0 0" and k = 0
               and options = "\<lparr>opt_timeout = Some 100, opt_interval = Some 50,
                               opt_description = Some ''map ready''\<rparr>"]
          late printable
    by (simp add: default_to_def world0_def logger_debug_def flaky_def failed_cycle_def
          await_condition_def try_condition_def template_string_def page_waitForTimeout_def
          in_budget_def numeral_2_eq_2 All_less_Suc)
qed

end
